theory Spec2Isabelle
  imports Main "HOL-Library.Multiset" "HOL-Library.Sublist"
begin

section \<open>Time values\<close>

text \<open>
  The program takes its notion of time from Go's \<^verbatim>\<open>time\<close> package.  A
  \<^verbatim>\<open>time.Duration\<close> is a signed 64-bit count of nanoseconds; a \<^verbatim>\<open>time.Time\<close>
  is an instant with nanosecond resolution, represented here by its (unbounded) distance
  in nanoseconds from the Unix epoch.  The library operations the program calls are
  modelled after their documentation:
  \<^item> \<^verbatim>\<open>t.Sub(u)\<close> is the difference \<open>t - u\<close>, saturated to the largest or smallest
    value of a \<^verbatim>\<open>Duration\<close> when it does not fit;
  \<^item> \<^verbatim>\<open>t.Unix()\<close> is the number of whole seconds since the epoch (rounded down);
  \<^item> the zero value \<^verbatim>\<open>time.Time{}\<close> is January 1 of year 1, 00:00:00 UTC.
\<close>

type_synonym Duration = int
type_synonym Time = int

definition Second :: Duration where
  "Second = 1000000000"

definition Minute :: Duration where
  "Minute = 60 * Second"

definition Hour :: Duration where
  "Hour = 60 * Minute"

definition minDuration :: Duration where
  "minDuration = - (2 ^ 63)"

definition maxDuration :: Duration where
  "maxDuration = 2 ^ 63 - 1"

definition Sub :: "Time \<Rightarrow> Time \<Rightarrow> Duration" where
  "Sub t u =
     (if maxDuration < t - u then maxDuration
      else if t - u < minDuration then minDuration
      else t - u)"

definition Unix :: "Time \<Rightarrow> int" where
  "Unix t = t div Second"

definition zeroTime :: Time where
  "zeroTime = - 62135596800 * Second"

section \<open>Age buckets\<close>

text \<open>
  \<^verbatim>\<open>type bucket struct { olderThan time.Duration; label string; found bool; count int }\<close>.
  The package-level slice \<^verbatim>\<open>buckets\<close> is the only mutable global of the program; the
  model passes it explicitly.  A counter never exceeds the number of records held in
  memory, so the 64-bit \<^verbatim>\<open>int\<close> of the source cannot overflow and is an \<open>int\<close> here.
\<close>

record bucket =
  olderThan :: Duration
  label :: string
  found :: bool
  count :: int

definition Day :: Duration where
  "Day = Hour * 24"

definition buckets :: "bucket list" where
  "buckets =
     [\<lparr>olderThan = 365 * Day, label = ''one year'', found = False, count = 0\<rparr>,
      \<lparr>olderThan = 6 * 30 * Day, label = ''six months'', found = False, count = 0\<rparr>,
      \<lparr>olderThan = 3 * 30 * Day, label = ''three months'', found = False, count = 0\<rparr>,
      \<lparr>olderThan = 30 * Day, label = ''one month'', found = False, count = 0\<rparr>,
      \<lparr>olderThan = 7 * Day, label = ''one week'', found = False, count = 0\<rparr>]"

text \<open>
  \<^verbatim>\<open>getBucketLabel\<close>: the \<^verbatim>\<open>range\<close> loop over the buckets.  The argument list is the
  part of the slice still to be visited; the result is the returned label together with
  the buckets as the call leaves them.
\<close>

fun getBucketLabel :: "Duration \<Rightarrow> bucket list \<Rightarrow> string \<times> bucket list" where
  "getBucketLabel age [] = ('''', [])"
| "getBucketLabel age (b # bs) =
     (if age \<le> olderThan b then
        (case getBucketLabel age bs of (l, bs') \<Rightarrow> (l, b # bs'))
      else
        (let b' = b\<lparr>count := count b + 1\<rparr> in
         if found b' then ('''', b' # bs)
         else (''Older than '' @ label b', b'\<lparr>found := True\<rparr> # bs)))"

section \<open>API types\<close>

text \<open>
  The structs the JSON responses are decoded into.  The first variant of the program
  declares them in its main package, the second one in a package \<^verbatim>\<open>lib\<close> with
  capitalised names; the fields and JSON tags are the same.  A Go pointer that may be
  \<^verbatim>\<open>nil\<close> is an \<open>option\<close>; a slice is a list (a \<^verbatim>\<open>nil\<close> slice and an empty one
  behave alike under \<^verbatim>\<open>range\<close> and \<^verbatim>\<open>len\<close>), except \<^verbatim>\<open>Errors\<close>, which the
  fetcher compares with \<^verbatim>\<open>nil\<close>.
\<close>

record extension =
  Code :: string
  TypeName :: string
  VariableName :: string

record location =
  Line :: int
  Column :: int

record graphQLError =
  Path :: "string list"
  Extensions :: "extension option"
  Locations :: "location list"
  Message :: string

definition graphQLError_String :: "graphQLError \<Rightarrow> string" where
  "graphQLError_String e = Message e"

record errorResponse =
  Errors :: "graphQLError list option"

record author =
  Login :: string

record pullRequest =
  Number :: int
  Title :: string
  Author :: author
  CreatedAt :: string

record pullRequests =
  Nodes :: "pullRequest option list"

record repository =
  Name :: string
  PullRequests :: pullRequests

record cursor =
  Cursor :: string

record repositories =
  TotalCount :: int
  Nodes :: "repository option list"
  Edges :: "cursor option list"

record organization =
  Login :: string
  Repositories :: "repositories option"

record data =
  Organization :: "organization option"

record response =
  Data :: "data option"

text \<open>
  The records sent from the fetchers to the collector: \<^verbatim>\<open>Row\<close> in the second
  variant (it carries the age computed by the fetcher), \<^verbatim>\<open>Printable\<close> in the
  first.
\<close>

record Row =
  Organization :: organization
  Repository :: repository
  PullRequest :: pullRequest
  CreatedDate :: Time
  Age :: Duration

record Printable =
  Organization :: organization
  Repository :: repository
  PullRequest :: pullRequest
  CreatedDate :: Time

section \<open>The environment of a fetcher\<close>

text \<open>
  What one turn of the pagination loop gets back from the network and from the decoding
  library.  \<^verbatim>\<open>client.Do\<close> fails with an error (its message) or yields a response
  with a status code and a body; \<^verbatim>\<open>ioutil.ReadAll\<close> on the body fails or yields
  bytes.  The bytes are represented by what the two \<^verbatim>\<open>json.Unmarshal\<close> calls of the
  loop make of them: the decoding into an \<^verbatim>\<open>errorResponse\<close> and the decoding into a
  \<^verbatim>\<open>response\<close>, each an error message or a value.
\<close>

record payload =
  asErrorResponse :: "string + errorResponse"
  asResponse :: "string + response"

datatype http_result =
    DoError string
  | Res int "string + payload"

text \<open>
  \<^verbatim>\<open>time.Parse(time.RFC3339, s)\<close> is a parameter of the model: a function from the
  string to an error message or a time.  On an error the library returns the zero time
  next to it, which is what \<^verbatim>\<open>c, _ := time.Parse(...)\<close> then keeps.
\<close>

type_synonym time_Parse = "string \<Rightarrow> string + Time"

definition parsedOrZero :: "time_Parse \<Rightarrow> string \<Rightarrow> Time" where
  "parsedOrZero parse s = (case parse s of Inl err \<Rightarrow> zeroTime | Inr c \<Rightarrow> c)"

text \<open>The verb \<^verbatim>\<open>%d\<close> of \<^verbatim>\<open>fmt\<close>: an integer in decimal.\<close>

fun showNat :: "nat \<Rightarrow> string" where
  "showNat n =
     (if n < 10 then [char_of (48 + n)]
      else showNat (n div 10) @ [char_of (48 + n mod 10)])"

declare showNat.simps [simp del]

definition showInt :: "int \<Rightarrow> string" where
  "showInt i = (if i < 0 then CHR ''-'' # showNat (nat (- i)) else showNat (nat i))"

text \<open>
  The \<^verbatim>\<open>vars\<close> map of the request body, with its three keys.  The query text and
  the token header are the same in every request of a fetcher, so a request is identified
  by its variables.  \<^verbatim>\<open>pageSize\<close> is the local variable of that name.
\<close>

record vars =
  var_orgName :: string
  var_after :: "string option"
  var_pageSize :: int

definition pageSize :: int where
  "pageSize = 100"

text \<open>
  How a fetcher ends: it returns (\<open>None\<close> is the \<^verbatim>\<open>nil\<close> error), it panics on a
  \<^verbatim>\<open>nil\<close> pointer, or it is still waiting for the answer to its last request.
\<close>

datatype outcome = Returned "string option" | Panicked | Waiting

text \<open>
  The result of running a fetcher against the answers the network gives to its
  successive requests: the records sent on the channel, the requests made (the page
  number announced before each, and its variables), and the way the fetcher ends.
  Every send on the unbuffered channel is taken to complete: the collector keeps
  receiving until every fetcher has signalled that it is done.
\<close>

record 'a fetched =
  sent :: "'a list"
  requests :: "(int \<times> vars) list"
  ending :: outcome

text \<open>The loop \<^verbatim>\<open>for _, cursor := range repos.Edges { vars["after"] = cursor.Cursor }\<close>;
  \<open>None\<close> when a \<^verbatim>\<open>nil\<close> edge makes it panic.\<close>

fun setAfter :: "vars \<Rightarrow> cursor option list \<Rightarrow> vars option" where
  "setAfter v [] = Some v"
| "setAfter v (None # es) = None"
| "setAfter v (Some c # es) = setAfter (v\<lparr>var_after := Some (Cursor c)\<rparr>) es"

section \<open>The fetcher of the first variant: getPrintables\<close>

text \<open>The inner loop over \<^verbatim>\<open>repo.PullRequests.Nodes\<close>: the records sent, and whether
  the loop ran to its end (\<open>False\<close>: a \<^verbatim>\<open>nil\<close> node made \<^verbatim>\<open>pr.CreatedAt\<close> panic).\<close>

fun sendPulls ::
  "time_Parse \<Rightarrow> organization \<Rightarrow> repository \<Rightarrow> pullRequest option list \<Rightarrow> Printable list \<times> bool"
where
  "sendPulls parse org repo [] = ([], True)"
| "sendPulls parse org repo (None # prs) = ([], False)"
| "sendPulls parse org repo (Some pr # prs) =
     (let c = parsedOrZero parse (CreatedAt pr);
          printable = \<lparr>Organization = org, Repository = repo, PullRequest = pr, CreatedDate = c\<rparr>
      in case sendPulls parse org repo prs of (ps, ok) \<Rightarrow> (printable # ps, ok))"

text \<open>The outer loop over \<^verbatim>\<open>repos.Nodes\<close>.\<close>

fun sendRepos ::
  "time_Parse \<Rightarrow> organization \<Rightarrow> repository option list \<Rightarrow> Printable list \<times> bool"
where
  "sendRepos parse org [] = ([], True)"
| "sendRepos parse org (None # rs) = ([], False)"
| "sendRepos parse org (Some repo # rs) =
     (case sendPulls parse org repo (pullRequests.Nodes (PullRequests repo)) of
        (ps, False) \<Rightarrow> (ps, False)
      | (ps, True) \<Rightarrow> (case sendRepos parse org rs of (qs, ok) \<Rightarrow> (ps @ qs, ok)))"

text \<open>
  One turn of the \<^verbatim>\<open>for\<close> loop, from the answer to \<^verbatim>\<open>client.Do\<close> on: the records
  sent during the turn, and either the way the fetcher ends (\<open>Inl\<close>) or the variables of
  the next turn (\<open>Inr\<close>).  The three error returns before \<^verbatim>\<open>client.Do\<close>
  (\<^verbatim>\<open>json.Marshal\<close> of a map of strings and an integer, \<^verbatim>\<open>Seek\<close> to the start of a
  byte reader, \<^verbatim>\<open>http.NewRequest\<close> with a constant method and URL) cannot be taken.
  Reading \<^verbatim>\<open>model.Data.Organization.Repositories\<close> and then \<^verbatim>\<open>repos.Nodes\<close> panics
  when one of the three pointers is \<^verbatim>\<open>nil\<close>, before anything is sent.
\<close>

definition getPrintables_turn ::
  "time_Parse \<Rightarrow> vars \<Rightarrow> http_result \<Rightarrow> Printable list \<times> (outcome + vars)"
where
  "getPrintables_turn parse v r =
     (case r of
        DoError err \<Rightarrow> ([], Inl (Returned (Some (''failed to make request: '' @ err))))
      | Res StatusCode body \<Rightarrow>
          if StatusCode \<noteq> 200 then
            ([], Inl (Returned (Some (''github returned '' @ showInt StatusCode))))
          else
            (case body of
               Inl err \<Rightarrow> ([], Inl (Returned (Some ''cannot read response body'')))
             | Inr responseBody \<Rightarrow>
            (case asErrorResponse responseBody of
               Inl err \<Rightarrow> ([], Inl (Returned (Some (''failed to unmarshal error: '' @ err))))
             | Inr errRes \<Rightarrow>
            (case Errors errRes of
               Some (e # es) \<Rightarrow>
                 ([], Inl (Returned (Some
                    (''failed to make graphql request: '' @ graphQLError_String e))))
             | _ \<Rightarrow>
            (case asResponse responseBody of
               Inl err \<Rightarrow>
                 ([], Inl (Returned (Some (''failed to unmarshal response: '' @ err))))
             | Inr model \<Rightarrow>
            (case Data model of
               None \<Rightarrow> ([], Inl Panicked)
             | Some d \<Rightarrow>
            (case data.Organization d of
               None \<Rightarrow> ([], Inl Panicked)
             | Some org \<Rightarrow>
            (case Repositories org of
               None \<Rightarrow> ([], Inl Panicked)
             | Some repos \<Rightarrow>
            (case sendRepos parse org (Nodes repos) of
               (ps, False) \<Rightarrow> (ps, Inl Panicked)
             | (ps, True) \<Rightarrow>
                 if int (length (Edges repos)) \<noteq> pageSize then (ps, Inl (Returned None))
                 else
                   (case setAfter v (Edges repos) of
                      None \<Rightarrow> (ps, Inl Panicked)
                    | Some v' \<Rightarrow> (ps, Inr v')))))))))))"

text \<open>The \<^verbatim>\<open>for\<close> loop, run against the list of answers; when the answers run out
  the last request stays unanswered.\<close>

fun getPrintables_loop ::
  "time_Parse \<Rightarrow> vars \<Rightarrow> int \<Rightarrow> http_result list \<Rightarrow> Printable fetched"
where
  "getPrintables_loop parse v pageNumber [] =
     \<lparr>sent = [], requests = [(pageNumber, v)], ending = Waiting\<rparr>"
| "getPrintables_loop parse v pageNumber (r # rs) =
     (case getPrintables_turn parse v r of
        (ps, Inl e) \<Rightarrow> \<lparr>sent = ps, requests = [(pageNumber, v)], ending = e\<rparr>
      | (ps, Inr v') \<Rightarrow>
          (let rest = getPrintables_loop parse v' (pageNumber + 1) rs
           in \<lparr>sent = ps @ sent rest,
               requests = (pageNumber, v) # requests rest,
               ending = ending rest\<rparr>))"

definition getPrintables :: "time_Parse \<Rightarrow> string \<Rightarrow> http_result list \<Rightarrow> Printable fetched" where
  "getPrintables parse org answers =
     getPrintables_loop parse
       \<lparr>var_orgName = org, var_after = None, var_pageSize = pageSize\<rparr> 1 answers"

section \<open>The fetcher of the second variant: getRows\<close>

text \<open>
  \<^verbatim>\<open>getRows\<close> reads the clock once, before its loop (\<^verbatim>\<open>now := time.Now()\<close>), and
  stores \<^verbatim>\<open>now.Sub(c)\<close> in every row it sends.  The reading is the parameter \<open>now\<close>.
\<close>

fun sendPullRows ::
  "time_Parse \<Rightarrow> Time \<Rightarrow> organization \<Rightarrow> repository \<Rightarrow> pullRequest option list \<Rightarrow> Row list \<times> bool"
where
  "sendPullRows parse now org repo [] = ([], True)"
| "sendPullRows parse now org repo (None # prs) = ([], False)"
| "sendPullRows parse now org repo (Some pr # prs) =
     (let c = parsedOrZero parse (CreatedAt pr);
          age = Sub now c;
          row = \<lparr>Row.Organization = org, Row.Repository = repo, Row.PullRequest = pr,
                 Row.CreatedDate = c, Age = age\<rparr>
      in case sendPullRows parse now org repo prs of (ps, ok) \<Rightarrow> (row # ps, ok))"

fun sendRepoRows ::
  "time_Parse \<Rightarrow> Time \<Rightarrow> organization \<Rightarrow> repository option list \<Rightarrow> Row list \<times> bool"
where
  "sendRepoRows parse now org [] = ([], True)"
| "sendRepoRows parse now org (None # rs) = ([], False)"
| "sendRepoRows parse now org (Some repo # rs) =
     (case sendPullRows parse now org repo (pullRequests.Nodes (PullRequests repo)) of
        (ps, False) \<Rightarrow> (ps, False)
      | (ps, True) \<Rightarrow> (case sendRepoRows parse now org rs of (qs, ok) \<Rightarrow> (ps @ qs, ok)))"

definition getRows_turn ::
  "time_Parse \<Rightarrow> Time \<Rightarrow> vars \<Rightarrow> http_result \<Rightarrow> Row list \<times> (outcome + vars)"
where
  "getRows_turn parse now v r =
     (case r of
        DoError err \<Rightarrow> ([], Inl (Returned (Some (''failed to make request: '' @ err))))
      | Res StatusCode body \<Rightarrow>
          if StatusCode \<noteq> 200 then
            ([], Inl (Returned (Some (''github returned '' @ showInt StatusCode))))
          else
            (case body of
               Inl err \<Rightarrow> ([], Inl (Returned (Some ''cannot read response body'')))
             | Inr responseBody \<Rightarrow>
            (case asErrorResponse responseBody of
               Inl err \<Rightarrow> ([], Inl (Returned (Some (''failed to unmarshal error: '' @ err))))
             | Inr errRes \<Rightarrow>
            (case Errors errRes of
               Some (e # es) \<Rightarrow>
                 ([], Inl (Returned (Some
                    (''failed to make graphql request: '' @ graphQLError_String e))))
             | _ \<Rightarrow>
            (case asResponse responseBody of
               Inl err \<Rightarrow>
                 ([], Inl (Returned (Some (''failed to unmarshal response: '' @ err))))
             | Inr model \<Rightarrow>
            (case Data model of
               None \<Rightarrow> ([], Inl Panicked)
             | Some d \<Rightarrow>
            (case data.Organization d of
               None \<Rightarrow> ([], Inl Panicked)
             | Some org \<Rightarrow>
            (case Repositories org of
               None \<Rightarrow> ([], Inl Panicked)
             | Some repos \<Rightarrow>
            (case sendRepoRows parse now org (Nodes repos) of
               (ps, False) \<Rightarrow> (ps, Inl Panicked)
             | (ps, True) \<Rightarrow>
                 if int (length (Edges repos)) \<noteq> pageSize then (ps, Inl (Returned None))
                 else
                   (case setAfter v (Edges repos) of
                      None \<Rightarrow> (ps, Inl Panicked)
                    | Some v' \<Rightarrow> (ps, Inr v')))))))))))"

fun getRows_loop ::
  "time_Parse \<Rightarrow> Time \<Rightarrow> vars \<Rightarrow> int \<Rightarrow> http_result list \<Rightarrow> Row fetched"
where
  "getRows_loop parse now v pageNumber [] =
     \<lparr>sent = [], requests = [(pageNumber, v)], ending = Waiting\<rparr>"
| "getRows_loop parse now v pageNumber (r # rs) =
     (case getRows_turn parse now v r of
        (ps, Inl e) \<Rightarrow> \<lparr>sent = ps, requests = [(pageNumber, v)], ending = e\<rparr>
      | (ps, Inr v') \<Rightarrow>
          (let rest = getRows_loop parse now v' (pageNumber + 1) rs
           in \<lparr>sent = ps @ sent rest,
               requests = (pageNumber, v) # requests rest,
               ending = ending rest\<rparr>))"

definition getRows :: "time_Parse \<Rightarrow> Time \<Rightarrow> string \<Rightarrow> http_result list \<Rightarrow> Row fetched" where
  "getRows parse now org answers =
     getRows_loop parse now
       \<lparr>var_orgName = org, var_after = None, var_pageSize = pageSize\<rparr> 1 answers"

section \<open>The collector\<close>

text \<open>
  \<^verbatim>\<open>sort.Slice\<close> belongs to the Go library: it reorders a slice so that no element
  is less than an earlier one, and promises nothing about the order of elements neither
  of which is less than the other.  The model is the insertion sort the library runs on
  slices of at most twelve elements: each element in turn is swapped leftwards as long
  as it is less than its left neighbour.  \<open>insertLeft\<close> works on the reversed prefix.
  The theorems on sorted output use only that the result is an ordered permutation.
\<close>

fun insertLeft :: "('a \<Rightarrow> 'a \<Rightarrow> bool) \<Rightarrow> 'a \<Rightarrow> 'a list \<Rightarrow> 'a list" where
  "insertLeft lessFn x [] = [x]"
| "insertLeft lessFn x (y # ys) =
     (if lessFn x y then y # insertLeft lessFn x ys else x # y # ys)"

definition sort_Slice :: "('a \<Rightarrow> 'a \<Rightarrow> bool) \<Rightarrow> 'a list \<Rightarrow> 'a list" where
  "sort_Slice lessFn xs = rev (foldl (\<lambda>prefix x. insertLeft lessFn x prefix) [] xs)"

text \<open>
  What the collector writes to standard output.  The text of a pull request line is
  kept as the values it is formatted from; its first number is
  \<^verbatim>\<open>int(age.Hours()/24)\<close>, a floating-point computation on the age.  The first variant
  prints the line with \<^verbatim>\<open>fmt.Printf(format, args...)\<close>, the second one builds the same
  text in \<^verbatim>\<open>Row.String\<close> and passes it to \<^verbatim>\<open>fmt.Printf\<close> as the format.
\<close>

datatype line_text = PullText Duration string string int string string

datatype printed =
    Found int
  | Println string
  | Printf_args line_text
  | Printf_format line_text
  | SummaryOf int
  | BucketLine string int
  | NewerThan string int

text \<open>The summary loop: one line per bucket, and the sum of the counters.\<close>

fun summaryLoop :: "bucket list \<Rightarrow> int \<Rightarrow> printed list \<times> int" where
  "summaryLoop [] n = ([], n)"
| "summaryLoop (b # bs) n =
     (case summaryLoop bs (n + count b) of
        (out, n') \<Rightarrow> (BucketLine (label b) (count b) # out, n'))"

text \<open>
  The end of both collectors, from \<^verbatim>\<open>Summary of\<close> on, for \<open>len\<close> records.  The slice
  of buckets always has its five elements, so \<^verbatim>\<open>buckets[len(buckets)-1]\<close> is its last one.
\<close>

definition printSummary :: "int \<Rightarrow> bucket list \<Rightarrow> printed list" where
  "printSummary len bs =
     (case summaryLoop bs 0 of
        (out, n) \<Rightarrow> SummaryOf len # out @ [NewerThan (label (last bs)) (len - n)])"

subsection \<open>First variant: main\<close>

text \<open>The print loop of \<^verbatim>\<open>main\<close>; \<open>now\<close> is the clock read after sorting.\<close>

fun printPrintables :: "Time \<Rightarrow> Printable list \<Rightarrow> bucket list \<Rightarrow> printed list \<times> bucket list" where
  "printPrintables now [] bs = ([], bs)"
| "printPrintables now (p # ps) bs =
     (let age = Sub now (CreatedDate p) in
      case getBucketLabel age bs of
        (l, bs') \<Rightarrow>
          (case printPrintables now ps bs' of
             (out, bs'') \<Rightarrow>
               ((if l \<noteq> '''' then [Println l] else [])
                @ Printf_args (PullText age
                    (Login (Organization p)) (Name (Repository p)) (Number (PullRequest p))
                    (Title (PullRequest p)) (author.Login (Author (PullRequest p))))
                # out, bs'')))"

text \<open>
  \<^verbatim>\<open>main\<close> once the channels are drained: \<open>printables\<close> are the retained records in the
  order they arrived, \<open>now\<close> is the clock read after sorting.
\<close>

definition main_report :: "Time \<Rightarrow> Printable list \<Rightarrow> printed list" where
  "main_report now printables =
     (let sorted = sort_Slice (\<lambda>a b. Unix (CreatedDate a) < Unix (CreatedDate b)) printables
      in case printPrintables now sorted buckets of
           (out, bs) \<Rightarrow>
             Found (int (length printables)) # out @ printSummary (int (length printables)) bs)"

subsection \<open>Second variant: FindOrgPulls\<close>

definition Row_String :: "Row \<Rightarrow> line_text" where
  "Row_String row =
     PullText (Age row)
       (Login (Row.Organization row)) (Name (Row.Repository row)) (Number (Row.PullRequest row))
       (Title (Row.PullRequest row)) (author.Login (Author (Row.PullRequest row)))"

fun printRows :: "Row list \<Rightarrow> bucket list \<Rightarrow> printed list \<times> bucket list" where
  "printRows [] bs = ([], bs)"
| "printRows (p # ps) bs =
     (case getBucketLabel (Age p) bs of
        (l, bs') \<Rightarrow>
          (case printRows ps bs' of
             (out, bs'') \<Rightarrow>
               ((if l \<noteq> '''' then [Println l] else []) @ Printf_format (Row_String p) # out,
                bs'')))"

definition FindOrgPulls_report :: "Row list \<Rightarrow> printed list" where
  "FindOrgPulls_report rows =
     (let sorted = sort_Slice (\<lambda>a b. Unix (Row.CreatedDate a) < Unix (Row.CreatedDate b)) rows
      in case printRows sorted buckets of
           (out, bs) \<Rightarrow> Found (int (length rows)) # out @ printSummary (int (length rows)) bs)"

section \<open>Notions used in the statements\<close>

text \<open>
  Bucket \<open>i\<close> is the first whose threshold the age exceeds: the thresholds before it
  are not exceeded, its own is.  \<open>ts\<close> are the thresholds in the order of the buckets.
\<close>

definition firstExceeded :: "Duration \<Rightarrow> Duration list \<Rightarrow> nat \<Rightarrow> bool" where
  "firstExceeded age ts i \<longleftrightarrow> i < length ts \<and> ts ! i < age \<and> (\<forall>j<i. age \<le> ts ! j)"

text \<open>The lines of pull requests among the printed lines, and the text of the line of a
  record of the first variant, given its age.\<close>

fun isPullLine :: "printed \<Rightarrow> bool" where
  "isPullLine (Printf_args t) = True"
| "isPullLine (Printf_format t) = True"
| "isPullLine l = False"

definition Printable_text :: "Duration \<Rightarrow> Printable \<Rightarrow> line_text" where
  "Printable_text age p =
     PullText age (Login (Organization p)) (Name (Repository p)) (Number (PullRequest p))
       (Title (PullRequest p)) (author.Login (Author (PullRequest p)))"

text \<open>
  The row the second variant sends where the first one sends the record \<open>p\<close>, for a
  fetcher that read the clock as \<open>now\<close>; and a printed line with
  \<^verbatim>\<open>Printf(text)\<close> in place of \<^verbatim>\<open>Printf(format, args...)\<close>.
\<close>

definition rowOf :: "Time \<Rightarrow> Printable \<Rightarrow> Row" where
  "rowOf now p =
     \<lparr>Row.Organization = Organization p, Row.Repository = Repository p,
      Row.PullRequest = PullRequest p, Row.CreatedDate = CreatedDate p,
      Age = Sub now (CreatedDate p)\<rparr>"

fun asFormat :: "printed \<Rightarrow> printed" where
  "asFormat (Printf_args t) = Printf_format t"
| "asFormat l = l"


section \<open>Concrete inputs\<close>

text \<open>An organization, a repository and pull requests for the examples; \<open>created\<close> is
  the creation time stored in the record.\<close>

definition org0 :: organization where
  "org0 = \<lparr>Login = ''gdbu'', Repositories = None\<rparr>"

definition repo0 :: repository where
  "repo0 = \<lparr>Name = ''api'', PullRequests = \<lparr>pullRequests.Nodes = []\<rparr>\<rparr>"

definition pull0 :: "int \<Rightarrow> string \<Rightarrow> pullRequest" where
  "pull0 n createdAt =
     \<lparr>Number = n, Title = ''fix'', Author = \<lparr>author.Login = ''dev''\<rparr>, CreatedAt = createdAt\<rparr>"

definition printable0 :: "int \<Rightarrow> string \<Rightarrow> Time \<Rightarrow> Printable" where
  "printable0 n createdAt created =
     \<lparr>Organization = org0, Repository = repo0, PullRequest = pull0 n createdAt,
      CreatedDate = created\<rparr>"

text \<open>An answer with status 200 that decodes without errors into one page of
  repositories of the organization \<^verbatim>\<open>gdbu\<close>, and a repository with its pull requests.\<close>

definition page :: "repository option list \<Rightarrow> cursor option list \<Rightarrow> http_result" where
  "page nodes edges =
     Res 200 (Inr \<lparr>asErrorResponse = Inr \<lparr>Errors = None\<rparr>,
                    asResponse = Inr \<lparr>Data = Some \<lparr>data.Organization = Some
                      \<lparr>Login = ''gdbu'',
                       Repositories = Some \<lparr>TotalCount = int (length nodes),
                                             Nodes = nodes, Edges = edges\<rparr>\<rparr>\<rparr>\<rparr>\<rparr>)"

definition repoWith :: "string \<Rightarrow> pullRequest option list \<Rightarrow> repository" where
  "repoWith name prs = \<lparr>Name = name, PullRequests = \<lparr>pullRequests.Nodes = prs\<rparr>\<rparr>"

text \<open>A stand-in for \<^verbatim>\<open>time.Parse\<close> that knows the timestamps of the examples
  (the library reads all three as given here) and rejects every other string.\<close>

definition parse0 :: time_Parse where
  "parse0 s =
     (if s = ''2020-01-01T00:00:00Z'' then Inr (1577836800 * Second)
      else if s = ''2019-01-01T00:00:00Z'' then Inr (1546300800 * Second)
      else if s = ''0000-06-01T00:00:00Z'' then Inr (- 62154086400 * Second)
      else Inl (''parsing time: cannot parse '' @ s))"

text \<open>A full page: one repository with one open pull request, and 100 edges of which
  the last has the cursor \<^verbatim>\<open>z\<close>; the record a fetcher sends for it; the variables of
  the first request for \<^verbatim>\<open>gdbu\<close>.\<close>

definition fullPage :: http_result where
  "fullPage =
     page [Some (repoWith ''api'' [Some (pull0 7 ''2020-01-01T00:00:00Z'')])]
       (map Some (replicate 99 \<lparr>Cursor = ''c''\<rparr> @ [\<lparr>Cursor = ''z''\<rparr>]))"

definition fullPage_sent :: "Printable list" where
  "fullPage_sent =
     [\<lparr>Organization =
         \<lparr>Login = ''gdbu'',
          Repositories = Some
            \<lparr>TotalCount = 1,
             Nodes = [Some (repoWith ''api'' [Some (pull0 7 ''2020-01-01T00:00:00Z'')])],
             Edges = map Some (replicate 99 \<lparr>Cursor = ''c''\<rparr> @ [\<lparr>Cursor = ''z''\<rparr>])\<rparr>\<rparr>,
       Repository = repoWith ''api'' [Some (pull0 7 ''2020-01-01T00:00:00Z'')],
       PullRequest = pull0 7 ''2020-01-01T00:00:00Z'',
       CreatedDate = 1577836800 * Second\<rparr>]"

definition vars0 :: vars where
  "vars0 = \<lparr>var_orgName = ''gdbu'', var_after = None, var_pageSize = 100\<rparr>"


section \<open>Properties of the bucket classification\<close>

lemma Day_eq: "Day = 86400000000000"
  by (simp add: Day_def Hour_def Minute_def Second_def)

lemma snd_getBucketLabel_Cons:
  "snd (getBucketLabel age (b # bs)) =
     (if age \<le> olderThan b then b # snd (getBucketLabel age bs)
      else b\<lparr>count := count b + 1, found := True\<rparr> # bs)"
  by (cases b) (simp split: prod.splits add: Let_def)

lemma getBucketLabel_skip:
  "\<forall>p \<in> set pre. age \<le> olderThan p \<Longrightarrow>
   getBucketLabel age (pre @ rest) =
     (fst (getBucketLabel age rest), pre @ snd (getBucketLabel age rest))"
  by (induction pre) (auto split: prod.splits)

lemma getBucketLabel_none:
  "\<forall>p \<in> set bs. age \<le> olderThan p \<Longrightarrow> getBucketLabel age bs = ('''', bs)"
  using getBucketLabel_skip [of bs age "[]"] by simp

lemma getBucketLabel_hit:
  "olderThan b < age \<Longrightarrow>
   getBucketLabel age (b # post) =
     (if found b then '''' else ''Older than '' @ label b,
      b\<lparr>count := count b + 1, found := True\<rparr> # post)"
  by (cases b) (auto simp: Let_def)

lemma getBucketLabel_one_step:
  "list_all2 (\<lambda>b b'. b' = b \<or> b' = b\<lparr>count := count b + 1, found := True\<rparr>)
     bs (snd (getBucketLabel age bs))"
  by (induction bs)
     (simp_all add: snd_getBucketLabel_Cons list.rel_refl del: getBucketLabel.simps(2))

lemma getBucketLabel_sum:
  "sum_list (map count (snd (getBucketLabel age bs))) \<le> sum_list (map count bs) + 1"
  by (induction bs) (simp_all add: snd_getBucketLabel_Cons del: getBucketLabel.simps(2))

lemma getBucketLabel_length: "length (snd (getBucketLabel age bs)) = length bs"
  by (induction bs) (simp_all add: snd_getBucketLabel_Cons del: getBucketLabel.simps(2))

lemma getBucketLabel_keeps:
  "i < length bs \<Longrightarrow> age \<le> olderThan (bs ! i) \<Longrightarrow> snd (getBucketLabel age bs) ! i = bs ! i"
proof (induction bs arbitrary: i)
  case Nil
  then show ?case by simp
next
  case (Cons b bs)
  show ?case
  proof (cases i)
    case 0
    with Cons.prems show ?thesis
      by (simp add: snd_getBucketLabel_Cons del: getBucketLabel.simps(2))
  next
    case (Suc j)
    with Cons show ?thesis
      by (simp add: snd_getBucketLabel_Cons del: getBucketLabel.simps(2))
  qed
qed

text \<open>
  C1.  The buckets are exactly five, with the thresholds 365, 180, 90, 30 and 7 days in
  this order, a day being 24 hours.  A call walks them in this order: the buckets whose
  threshold the age does not exceed (\<open>pre\<close>) are skipped and left as they are; if none
  is exceeded nothing changes and no label is returned; the first bucket \<open>b\<close> whose
  threshold is exceeded has its counter incremented and is marked found, and the buckets
  after it (\<open>post\<close>) are not looked at.  So, whatever the state \<open>bs\<close>, every bucket is
  either unchanged or incremented by one, and the counters together grow by at most one.
\<close>

theorem getBucketLabel_walk:
  assumes "\<forall>p \<in> set pre. age \<le> olderThan p"
  shows "map olderThan buckets = [365 * Day, 180 * Day, 90 * Day, 30 * Day, 7 * Day]
    \<and> Day = 24 * 60 * 60 * 1000000000
    \<and> getBucketLabel age pre = ('''', pre)
    \<and> (olderThan b < age \<longrightarrow>
         getBucketLabel age (pre @ b # post) =
           (if found b then '''' else ''Older than '' @ label b,
            pre @ b\<lparr>count := count b + 1, found := True\<rparr> # post))
    \<and> list_all2 (\<lambda>b b'. b' = b \<or> b' = b\<lparr>count := count b + 1, found := True\<rparr>)
         bs (snd (getBucketLabel age bs))
    \<and> sum_list (map count (snd (getBucketLabel age bs))) \<le> sum_list (map count bs) + 1"
proof -
  have "map olderThan buckets = [365 * Day, 180 * Day, 90 * Day, 30 * Day, 7 * Day]"
    by (simp add: buckets_def)
  moreover have "Day = 24 * 60 * 60 * 1000000000"
    by (simp add: Day_eq)
  moreover have "getBucketLabel age pre = ('''', pre)"
    using assms by (rule getBucketLabel_none)
  moreover have "olderThan b < age \<longrightarrow>
         getBucketLabel age (pre @ b # post) =
           (if found b then '''' else ''Older than '' @ label b,
            pre @ b\<lparr>count := count b + 1, found := True\<rparr> # post)"
    using assms getBucketLabel_skip [of pre age "b # post"] getBucketLabel_hit [of b age post]
    by simp
  ultimately show ?thesis
    using getBucketLabel_one_step [of bs age] getBucketLabel_sum [of age bs] by blast
qed

theorem getBucketLabel_walk_witness:
  "200 * Day \<le> 365 * Day \<and> 180 * Day < 200 * Day
   \<and> getBucketLabel (200 * Day) buckets =
       (''Older than six months'',
        [\<lparr>olderThan = 365 * Day, label = ''one year'', found = False, count = 0\<rparr>,
         \<lparr>olderThan = 180 * Day, label = ''six months'', found = True, count = 1\<rparr>,
         \<lparr>olderThan = 90 * Day, label = ''three months'', found = False, count = 0\<rparr>,
         \<lparr>olderThan = 30 * Day, label = ''one month'', found = False, count = 0\<rparr>,
         \<lparr>olderThan = 7 * Day, label = ''one week'', found = False, count = 0\<rparr>])"
  using getBucketLabel_walk
    [of "[\<lparr>olderThan = 365 * Day, label = ''one year'', found = False, count = 0\<rparr>]"
        "200 * Day"
        "\<lparr>olderThan = 180 * Day, label = ''six months'', found = False, count = 0\<rparr>"
        "[\<lparr>olderThan = 90 * Day, label = ''three months'', found = False, count = 0\<rparr>,
          \<lparr>olderThan = 30 * Day, label = ''one month'', found = False, count = 0\<rparr>,
          \<lparr>olderThan = 7 * Day, label = ''one week'', found = False, count = 0\<rparr>]"
        "[]"]
  by (simp add: buckets_def Day_eq)

text \<open>
  C2.  An age equal to the threshold of a bucket leaves that bucket as it is, in every
  state of the buckets.  On the initial buckets an age of exactly 365 days is counted in
  the six-months bucket, not in the one-year bucket; 365 days and one second are counted
  in the one-year bucket.
\<close>

theorem threshold_equality:
  assumes "i < length bs" and "age = olderThan (bs ! i)"
  shows "snd (getBucketLabel age bs) ! i = bs ! i
    \<and> getBucketLabel (365 * Day) buckets =
        (''Older than six months'',
         buckets[1 := \<lparr>olderThan = 180 * Day, label = ''six months'', found = True, count = 1\<rparr>])
    \<and> getBucketLabel (365 * Day + Second) buckets =
        (''Older than one year'',
         buckets[0 := \<lparr>olderThan = 365 * Day, label = ''one year'', found = True, count = 1\<rparr>])"
  using assms getBucketLabel_keeps [of i bs age]
  by (simp add: buckets_def Day_eq Second_def)

theorem threshold_equality_witness:
  "(3::nat) < length buckets \<and> 30 * Day = olderThan (buckets ! 3)
   \<and> snd (getBucketLabel (30 * Day) buckets) ! 3 = buckets ! 3
   \<and> fst (getBucketLabel (30 * Day) buckets) = ''Older than one week''"
  using threshold_equality [of 3 buckets "30 * Day"]
  by (simp add: buckets_def Day_eq)

lemma getBucketLabel_thresholds:
  "map olderThan (snd (getBucketLabel age bs)) = map olderThan bs"
  by (induction bs) (simp_all add: snd_getBucketLabel_Cons del: getBucketLabel.simps(2))

lemma getBucketLabel_labels:
  "map label (snd (getBucketLabel age bs)) = map label bs"
  by (induction bs) (simp_all add: snd_getBucketLabel_Cons del: getBucketLabel.simps(2))

lemma firstExceeded_unique:
  "firstExceeded age ts i \<Longrightarrow> firstExceeded age ts k \<Longrightarrow> i = k"
  unfolding firstExceeded_def by (metis linorder_neqE_nat not_less)

lemma firstExceeded_or_none:
  "(\<forall>t \<in> set ts. age \<le> t) \<or> (\<exists>i. firstExceeded age ts i)"
proof (cases "\<forall>t \<in> set ts. age \<le> t")
  case True
  then show ?thesis by simp
next
  case False
  then have "\<exists>i. i < length ts \<and> ts ! i < age"
    by (metis in_set_conv_nth not_less)
  then obtain i where i: "i < length ts \<and> ts ! i < age" and
      least: "\<forall>j<i. \<not> (j < length ts \<and> ts ! j < age)"
    using exists_least_iff [of "\<lambda>i. i < length ts \<and> ts ! i < age"] by blast
  then have "firstExceeded age ts i"
    unfolding firstExceeded_def by (metis less_trans not_less)
  then show ?thesis by blast
qed

lemma getBucketLabel_first:
  assumes "firstExceeded age (map olderThan bs) i"
  shows "getBucketLabel age bs =
     (if found (bs ! i) then '''' else ''Older than '' @ label (bs ! i),
      bs[i := (bs ! i)\<lparr>count := count (bs ! i) + 1, found := True\<rparr>])"
proof -
  from assms have i: "i < length bs" and hit: "olderThan (bs ! i) < age"
    and skip: "\<forall>p \<in> set (take i bs). age \<le> olderThan p"
    unfolding firstExceeded_def by (auto simp: in_set_conv_nth)
  have "getBucketLabel age (take i bs @ bs ! i # drop (Suc i) bs) =
     (if found (bs ! i) then '''' else ''Older than '' @ label (bs ! i),
      take i bs @ (bs ! i)\<lparr>count := count (bs ! i) + 1, found := True\<rparr> # drop (Suc i) bs)"
    using getBucketLabel_skip [OF skip, of "bs ! i # drop (Suc i) bs"]
      getBucketLabel_hit [OF hit, of "drop (Suc i) bs"] by simp
  then show ?thesis
    using i by (simp add: id_take_nth_drop [symmetric] upd_conv_take_nth_drop)
qed

lemma getBucketLabel_no_threshold:
  "\<forall>t \<in> set (map olderThan bs). age \<le> t \<Longrightarrow> getBucketLabel age bs = ('''', bs)"
  by (rule getBucketLabel_none) simp

lemma printPrintables_Cons:
  "printPrintables now (p # ps) bs =
     ((if fst (getBucketLabel (Sub now (CreatedDate p)) bs) \<noteq> ''''
       then [Println (fst (getBucketLabel (Sub now (CreatedDate p)) bs))] else [])
      @ Printf_args (PullText (Sub now (CreatedDate p))
            (Login (Organization p)) (Name (Repository p)) (Number (PullRequest p))
            (Title (PullRequest p)) (author.Login (Author (PullRequest p))))
      # fst (printPrintables now ps (snd (getBucketLabel (Sub now (CreatedDate p)) bs))),
      snd (printPrintables now ps (snd (getBucketLabel (Sub now (CreatedDate p)) bs))))"
  by (simp add: Let_def split: prod.splits)

lemma printPrintables_thresholds:
  "map olderThan (snd (printPrintables now ps bs)) = map olderThan bs"
  by (induction ps arbitrary: bs)
     (simp_all add: printPrintables_Cons getBucketLabel_thresholds del: printPrintables.simps(2))

lemma printPrintables_labels:
  "map label (snd (printPrintables now ps bs)) = map label bs"
  by (induction ps arbitrary: bs)
     (simp_all add: printPrintables_Cons getBucketLabel_labels del: printPrintables.simps(2))

lemma getBucketLabel_count_nth:
  assumes "i < length bs"
  shows "count (snd (getBucketLabel age bs) ! i) =
     count (bs ! i) + (if firstExceeded age (map olderThan bs) i then 1 else 0)"
proof -
  consider (none) "\<forall>t \<in> set (map olderThan bs). age \<le> t"
    | (some) k where "firstExceeded age (map olderThan bs) k"
    using firstExceeded_or_none [of "map olderThan bs" age] by blast
  then show ?thesis
  proof cases
    case none
    then have "\<not> firstExceeded age (map olderThan bs) i"
      using assms unfolding firstExceeded_def by (metis length_map not_less nth_mem)
    with none show ?thesis by (simp add: getBucketLabel_no_threshold)
  next
    case some
    have "firstExceeded age (map olderThan bs) i \<longleftrightarrow> i = k"
      using some firstExceeded_unique by blast
    with some assms show ?thesis
      by (simp add: getBucketLabel_first nth_list_update)
  qed
qed

lemma printPrintables_count_nth:
  "i < length bs \<Longrightarrow>
   count (snd (printPrintables now ps bs) ! i) =
     count (bs ! i) +
     int (length [p \<leftarrow> ps. firstExceeded (Sub now (CreatedDate p)) (map olderThan bs) i])"
proof (induction ps arbitrary: bs)
  case Nil
  then show ?case by simp
next
  case (Cons p ps)
  let ?bs = "snd (getBucketLabel (Sub now (CreatedDate p)) bs)"
  have len: "i < length ?bs" using Cons.prems by (simp add: getBucketLabel_length)
  show ?case
    using Cons.IH [OF len] Cons.prems
    by (simp add: printPrintables_Cons getBucketLabel_thresholds getBucketLabel_count_nth
             del: printPrintables.simps(2))
qed

lemma insertLeft_mset: "mset (insertLeft lessFn x ys) = add_mset x (mset ys)"
  by (induction ys) simp_all

lemma foldl_insertLeft_mset:
  "mset (foldl (\<lambda>prefix x. insertLeft lessFn x prefix) acc xs) = mset acc + mset xs"
  by (induction xs arbitrary: acc) (simp_all add: insertLeft_mset)

lemma sort_Slice_mset: "mset (sort_Slice lessFn xs) = mset xs"
  by (simp add: sort_Slice_def foldl_insertLeft_mset)

lemma sort_Slice_length: "length (sort_Slice lessFn xs) = length xs"
  using sort_Slice_mset [of lessFn xs] by (metis size_mset)

lemma filter_length_mset:
  "mset xs = mset ys \<Longrightarrow> length (filter P xs) = length (filter P ys)"
  by (metis mset_filter size_mset)

lemma insertLeft_set: "set (insertLeft lessFn x ys) = insert x (set ys)"
  by (induction ys) auto

lemma insertLeft_key_sorted:
  fixes f :: "'a \<Rightarrow> int"
  shows "sorted (rev (map f ys)) \<Longrightarrow>
    sorted (rev (map f (insertLeft (\<lambda>a b. f a < f b) x ys)))"
  by (induction ys) (auto simp: sorted_append insertLeft_set)

lemma foldl_insertLeft_sorted:
  fixes f :: "'a \<Rightarrow> int"
  shows "sorted (rev (map f acc)) \<Longrightarrow>
    sorted (rev (map f (foldl (\<lambda>prefix x. insertLeft (\<lambda>a b. f a < f b) x prefix) acc xs)))"
  by (induction xs arbitrary: acc) (simp_all add: insertLeft_key_sorted)

lemma sort_Slice_sorted:
  fixes f :: "'a \<Rightarrow> int"
  shows "sorted (map f (sort_Slice (\<lambda>a b. f a < f b) xs))"
  using foldl_insertLeft_sorted [of f "[]" xs] by (simp add: sort_Slice_def rev_map)

lemma summaryLoop_eq:
  "summaryLoop bs n = (map (\<lambda>b. BucketLine (label b) (count b)) bs, n + sum_list (map count bs))"
  by (induction bs arbitrary: n) simp_all

lemma printSummary_eq:
  "printSummary len bs =
     SummaryOf len # map (\<lambda>b. BucketLine (label b) (count b)) bs
       @ [NewerThan (label (last bs)) (len - sum_list (map count bs))]"
  by (simp add: printSummary_def summaryLoop_eq)

lemma list_of_five:
  assumes "length xs = 5"
  shows "xs = [xs ! 0, xs ! 1, xs ! 2, xs ! 3, xs ! 4]"
proof -
  from assms obtain a b c d e where "xs = [a, b, c, d, e]"
    by (auto simp: length_Suc_conv eval_nat_numeral)
  then show ?thesis by simp
qed

lemma firstExceeded_buckets:
  "firstExceeded age (map olderThan buckets) 0 \<longleftrightarrow> 365 * Day < age"
  "firstExceeded age (map olderThan buckets) 1 \<longleftrightarrow> 180 * Day < age \<and> age \<le> 365 * Day"
  "firstExceeded age (map olderThan buckets) 2 \<longleftrightarrow> 90 * Day < age \<and> age \<le> 180 * Day"
  "firstExceeded age (map olderThan buckets) 3 \<longleftrightarrow> 30 * Day < age \<and> age \<le> 90 * Day"
  "firstExceeded age (map olderThan buckets) 4 \<longleftrightarrow> 7 * Day < age \<and> age \<le> 30 * Day"
  by (auto simp: firstExceeded_def buckets_def Day_eq less_Suc_eq eval_nat_numeral)

lemma six_classes:
  fixes f :: "'a \<Rightarrow> int"
  shows "int (length [p \<leftarrow> ps. 365 * Day < f p])
    + int (length [p \<leftarrow> ps. 180 * Day < f p \<and> f p \<le> 365 * Day])
    + int (length [p \<leftarrow> ps. 90 * Day < f p \<and> f p \<le> 180 * Day])
    + int (length [p \<leftarrow> ps. 30 * Day < f p \<and> f p \<le> 90 * Day])
    + int (length [p \<leftarrow> ps. 7 * Day < f p \<and> f p \<le> 30 * Day])
    + int (length [p \<leftarrow> ps. f p \<le> 7 * Day]) = int (length ps)"
  by (induction ps) (auto simp: Day_eq)

lemma final_labels:
  "map label (snd (printPrintables now ss buckets)) =
     [''one year'', ''six months'', ''three months'', ''one month'', ''one week'']"
  by (simp add: printPrintables_labels) (simp add: buckets_def)

lemma final_length: "length (snd (printPrintables now ss buckets)) = 5"
  using printPrintables_thresholds [of now ss buckets, THEN arg_cong, of length]
  by (simp add: buckets_def)

lemma final_count_nth:
  assumes "mset ss = mset ps" and "i < 5"
  shows "count (snd (printPrintables now ss buckets) ! i) =
      int (length [p \<leftarrow> ps. firstExceeded (Sub now (CreatedDate p)) (map olderThan buckets) i])"
proof -
  have "i < length buckets" using assms(2) by (simp add: buckets_def)
  then have "count (snd (printPrintables now ss buckets) ! i) = count (buckets ! i) +
      int (length [p \<leftarrow> ss. firstExceeded (Sub now (CreatedDate p)) (map olderThan buckets) i])"
    by (rule printPrintables_count_nth)
  moreover have "count (buckets ! i) = 0"
    using assms(2) by (auto simp: buckets_def less_Suc_eq eval_nat_numeral)
  ultimately show ?thesis
    using filter_length_mset [OF assms(1)] by simp
qed

lemma final_counts:
  assumes "mset ss = mset ps"
  shows "map count (snd (printPrintables now ss buckets)) =
      [int (length [p \<leftarrow> ps. 365 * Day < Sub now (CreatedDate p)]),
       int (length [p \<leftarrow> ps. 180 * Day < Sub now (CreatedDate p) \<and> Sub now (CreatedDate p) \<le> 365 * Day]),
       int (length [p \<leftarrow> ps. 90 * Day < Sub now (CreatedDate p) \<and> Sub now (CreatedDate p) \<le> 180 * Day]),
       int (length [p \<leftarrow> ps. 30 * Day < Sub now (CreatedDate p) \<and> Sub now (CreatedDate p) \<le> 90 * Day]),
       int (length [p \<leftarrow> ps. 7 * Day < Sub now (CreatedDate p) \<and> Sub now (CreatedDate p) \<le> 30 * Day])]"
proof -
  let ?fin = "snd (printPrintables now ss buckets)"
  have "map count ?fin =
      [count (?fin ! 0), count (?fin ! 1), count (?fin ! 2), count (?fin ! 3), count (?fin ! 4)]"
    using list_of_five [of "map count ?fin"] final_length [of now ss] by simp
  then show ?thesis
    using final_count_nth [OF assms, of 0 now] final_count_nth [OF assms, of 1 now]
      final_count_nth [OF assms, of 2 now] final_count_nth [OF assms, of 3 now]
      final_count_nth [OF assms, of 4 now]
    by (simp add: firstExceeded_buckets firstExceeded_buckets(2) [unfolded One_nat_def])
qed

text \<open>
  C3.  The summary of the first variant: the five bucket lines carry the numbers of
  records in the five age classes, and the last line carries the number of records whose
  age exceeds no threshold (at most 7 days); the six numbers add up to the number of
  records, whatever the ages and the order of arrival.
\<close>

theorem summary_accounts_for_every_record:
  "main_report now ps =
     Found (int (length ps))
     # fst (printPrintables now
              (sort_Slice (\<lambda>a b. Unix (CreatedDate a) < Unix (CreatedDate b)) ps) buckets)
     @ [SummaryOf (int (length ps)),
        BucketLine ''one year'' (int (length [p \<leftarrow> ps. 365 * Day < Sub now (CreatedDate p)])),
        BucketLine ''six months'' (int (length [p \<leftarrow> ps.
           180 * Day < Sub now (CreatedDate p) \<and> Sub now (CreatedDate p) \<le> 365 * Day])),
        BucketLine ''three months'' (int (length [p \<leftarrow> ps.
           90 * Day < Sub now (CreatedDate p) \<and> Sub now (CreatedDate p) \<le> 180 * Day])),
        BucketLine ''one month'' (int (length [p \<leftarrow> ps.
           30 * Day < Sub now (CreatedDate p) \<and> Sub now (CreatedDate p) \<le> 90 * Day])),
        BucketLine ''one week'' (int (length [p \<leftarrow> ps.
           7 * Day < Sub now (CreatedDate p) \<and> Sub now (CreatedDate p) \<le> 30 * Day])),
        NewerThan ''one week'' (int (length [p \<leftarrow> ps. Sub now (CreatedDate p) \<le> 7 * Day]))]
   \<and> int (length [p \<leftarrow> ps. 365 * Day < Sub now (CreatedDate p)])
     + int (length [p \<leftarrow> ps. 180 * Day < Sub now (CreatedDate p) \<and> Sub now (CreatedDate p) \<le> 365 * Day])
     + int (length [p \<leftarrow> ps. 90 * Day < Sub now (CreatedDate p) \<and> Sub now (CreatedDate p) \<le> 180 * Day])
     + int (length [p \<leftarrow> ps. 30 * Day < Sub now (CreatedDate p) \<and> Sub now (CreatedDate p) \<le> 90 * Day])
     + int (length [p \<leftarrow> ps. 7 * Day < Sub now (CreatedDate p) \<and> Sub now (CreatedDate p) \<le> 30 * Day])
     + int (length [p \<leftarrow> ps. Sub now (CreatedDate p) \<le> 7 * Day]) = int (length ps)"
proof -
  let ?ss = "sort_Slice (\<lambda>a b. Unix (CreatedDate a) < Unix (CreatedDate b)) ps"
  let ?fin = "snd (printPrintables now ?ss buckets)"
  have perm: "mset ?ss = mset ps" by (rule sort_Slice_mset)
  have labels: "map label ?fin =
      [''one year'', ''six months'', ''three months'', ''one month'', ''one week'']"
    by (rule final_labels)
  note counts = final_counts [OF perm, of now]
  have five: "?fin = [?fin ! 0, ?fin ! 1, ?fin ! 2, ?fin ! 3, ?fin ! 4]"
    by (rule list_of_five) (rule final_length)
  have lines: "map (\<lambda>b. BucketLine (label b) (count b)) ?fin =
      map2 BucketLine (map label ?fin) (map count ?fin)"
    by (simp add: zip_map_map map_zip_map2 zip_same_conv_map)
  have lst: "label (last ?fin) = ''one week''"
  proof -
    have "last ?fin = ?fin ! 4" using five by (metis last.simps list.distinct(1))
    moreover have "label (?fin ! 4) = map label ?fin ! 4"
      using final_length [of now ?ss] by simp
    ultimately show ?thesis by (simp add: labels)
  qed
  note six = six_classes [of "\<lambda>p. Sub now (CreatedDate p)" ps]
  have total: "int (length ps) - sum_list (map count ?fin) =
      int (length [p \<leftarrow> ps. Sub now (CreatedDate p) \<le> 7 * Day])"
    using six by (simp add: counts)
  have "main_report now ps =
      Found (int (length ps)) # fst (printPrintables now ?ss buckets)
        @ printSummary (int (length ps)) ?fin"
    by (simp add: main_report_def split: prod.splits)
  then show ?thesis
    using six by (simp add: printSummary_eq lines lst total) (simp add: labels counts)
qed

section \<open>Properties of the collector\<close>

lemma filter_printPrintables:
  "filter isPullLine (fst (printPrintables now ps bs)) =
     map (\<lambda>p. Printf_args (Printable_text (Sub now (CreatedDate p)) p)) ps"
  by (induction ps arbitrary: bs)
     (simp_all add: printPrintables_Cons Printable_text_def del: printPrintables.simps(2))

lemma filter_printSummary: "filter isPullLine (printSummary len bs) = []"
  by (simp add: printSummary_eq filter_empty_conv)

lemma main_report_split:
  "main_report now ps =
     Found (int (length ps))
     # fst (printPrintables now
              (sort_Slice (\<lambda>a b. Unix (CreatedDate a) < Unix (CreatedDate b)) ps) buckets)
     @ printSummary (int (length ps))
         (snd (printPrintables now
              (sort_Slice (\<lambda>a b. Unix (CreatedDate a) < Unix (CreatedDate b)) ps) buckets))"
  by (simp add: main_report_def split: prod.splits)

text \<open>
  C5 (amended).  The lines of pull requests printed by the first variant are the lines
  of the retained records, taken in the order \<^verbatim>\<open>sort.Slice\<close> leaves them in: a
  permutation of the retained records in which the creation times, in whole seconds
  since the epoch, never decrease.  The comparison function looks at
  \<^verbatim>\<open>CreatedDate.Unix()\<close> only.
\<close>

theorem printed_by_whole_seconds:
  "filter isPullLine (main_report now ps) =
     map (\<lambda>p. Printf_args (Printable_text (Sub now (CreatedDate p)) p))
       (sort_Slice (\<lambda>a b. Unix (CreatedDate a) < Unix (CreatedDate b)) ps)
   \<and> mset (sort_Slice (\<lambda>a b. Unix (CreatedDate a) < Unix (CreatedDate b)) ps) = mset ps
   \<and> sorted (map (\<lambda>p. Unix (CreatedDate p))
        (sort_Slice (\<lambda>a b. Unix (CreatedDate a) < Unix (CreatedDate b)) ps))"
  using sort_Slice_sorted [of "\<lambda>p. Unix (CreatedDate p)" ps]
  by (simp add: main_report_split filter_printPrintables filter_printSummary sort_Slice_mset)

text \<open>
  C5 as stated fails for records created within the same second: of two records that
  arrive in the order 12:26:40.9, 12:26:40.1 neither is less than the other, the slice
  stays as it is, and the line of the later record is printed first.
\<close>

theorem same_second_counterexample:
  "main_report (1600000001 * Second)
     [printable0 1 ''2020-09-13T12:26:40.9Z'' (1600000000 * Second + 900000000),
      printable0 2 ''2020-09-13T12:26:40.1Z'' (1600000000 * Second + 100000000)] =
     [Found 2,
      Printf_args (PullText 100000000 ''gdbu'' ''api'' 1 ''fix'' ''dev''),
      Printf_args (PullText 900000000 ''gdbu'' ''api'' 2 ''fix'' ''dev''),
      SummaryOf 2,
      BucketLine ''one year'' 0, BucketLine ''six months'' 0, BucketLine ''three months'' 0,
      BucketLine ''one month'' 0, BucketLine ''one week'' 0,
      NewerThan ''one week'' 2]
   \<and> CreatedDate (printable0 2 ''2020-09-13T12:26:40.1Z'' (1600000000 * Second + 100000000))
     < CreatedDate (printable0 1 ''2020-09-13T12:26:40.9Z'' (1600000000 * Second + 900000000))"
  by (simp add: main_report_def sort_Slice_def printable0_def org0_def repo0_def pull0_def
      Unix_def Second_def Sub_def maxDuration_def minDuration_def buckets_def Day_eq
      printSummary_def Let_def)

section \<open>Properties of the fetcher\<close>

lemma getPrintables_loop_Cons:
  "getPrintables_loop parse v n (r # rs) =
     (case snd (getPrintables_turn parse v r) of
        Inl e \<Rightarrow> \<lparr>sent = fst (getPrintables_turn parse v r), requests = [(n, v)], ending = e\<rparr>
      | Inr v' \<Rightarrow>
          \<lparr>sent = fst (getPrintables_turn parse v r) @ sent (getPrintables_loop parse v' (n + 1) rs),
           requests = (n, v) # requests (getPrintables_loop parse v' (n + 1) rs),
           ending = ending (getPrintables_loop parse v' (n + 1) rs)\<rparr>)"
  by (simp add: Let_def split: prod.splits sum.splits)

lemma requests_nonempty: "requests (getPrintables_loop parse v n rs) \<noteq> []"
  by (cases rs) (simp_all add: getPrintables_loop_Cons split: sum.splits del: getPrintables_loop.simps(2))

lemma hd_requests: "hd (requests (getPrintables_loop parse v n rs)) = (n, v)"
  by (cases rs) (simp_all add: getPrintables_loop_Cons split: sum.splits del: getPrintables_loop.simps(2))

text \<open>A turn on a page that decodes.\<close>

lemma turn_page:
  assumes "errs = None \<or> errs = Some []"
    and "Repositories org = Some repos"
    and "sendRepos parse org (Nodes repos) = (ps, True)"
  shows "getPrintables_turn parse v
      (Res 200 (Inr \<lparr>asErrorResponse = Inr \<lparr>Errors = errs\<rparr>,
                     asResponse = Inr \<lparr>Data = Some \<lparr>data.Organization = Some org\<rparr>\<rparr>\<rparr>)) =
     (ps, if int (length (Edges repos)) \<noteq> 100 then Inl (Returned None)
          else case setAfter v (Edges repos) of None \<Rightarrow> Inl Panicked | Some v' \<Rightarrow> Inr v')"
  using assms by (auto simp: getPrintables_turn_def pageSize_def split: option.splits)

lemma turn_not_Waiting: "snd (getPrintables_turn parse v r) \<noteq> Inl Waiting"
  by (simp add: getPrintables_turn_def
      split: http_result.splits sum.splits option.splits list.splits prod.splits bool.splits)

text \<open>Composition: answers that arrive while the fetcher is waiting.\<close>

lemma loop_append:
  "ending (getPrintables_loop parse v n pre) = Waiting \<Longrightarrow>
   getPrintables_loop parse v n (pre @ rs) =
     (let w = getPrintables_loop parse v n pre;
          c = getPrintables_loop parse (snd (last (requests w))) (fst (last (requests w))) rs
      in \<lparr>sent = sent w @ sent c,
          requests = butlast (requests w) @ requests c,
          ending = ending c\<rparr>)"
proof (induction pre arbitrary: v n)
  case Nil
  then show ?case by (simp add: Let_def)
next
  case (Cons r pre)
  show ?case
  proof (cases "snd (getPrintables_turn parse v r)")
    case (Inl e)
    with Cons.prems turn_not_Waiting [of parse v r] show ?thesis
      by (simp add: getPrintables_loop_Cons del: getPrintables_loop.simps(2))
  next
    case (Inr v')
    with Cons.prems have "ending (getPrintables_loop parse v' (n + 1) pre) = Waiting"
      by (simp add: getPrintables_loop_Cons del: getPrintables_loop.simps(2))
    from Cons.IH [OF this] Inr show ?thesis
      by (simp add: getPrintables_loop_Cons Let_def requests_nonempty
               del: getPrintables_loop.simps(2))
  qed
qed

lemma loop_stop:
  assumes "ending (getPrintables_loop parse v n pre) = Waiting"
    and "\<And>v. getPrintables_turn parse v r = ([], Inl e)"
  shows "getPrintables_loop parse v n (pre @ r # rest) =
     (getPrintables_loop parse v n pre)\<lparr>ending := e\<rparr>"
  using assms(2) requests_nonempty [of parse v n pre]
  by (simp add: loop_append [OF assms(1)] Let_def)

lemma setAfter_Some:
  "setAfter v (map Some cs) =
     Some (if cs = [] then v else v\<lparr>var_after := Some (Cursor (last cs))\<rparr>)"
  by (induction cs arbitrary: v) simp_all

lemma setAfter_fold:
  "setAfter v (map Some cs) = Some (fold (\<lambda>c v. v\<lparr>var_after := Some (Cursor c)\<rparr>) cs v)"
  by (induction cs arbitrary: v) simp_all

lemma turn_errors:
  "getPrintables_turn parse v (DoError err) =
     ([], Inl (Returned (Some (''failed to make request: '' @ err))))"
  "StatusCode \<noteq> 200 \<Longrightarrow> getPrintables_turn parse v (Res StatusCode body) =
     ([], Inl (Returned (Some (''github returned '' @ showInt StatusCode))))"
  "getPrintables_turn parse v (Res 200 (Inl err)) =
     ([], Inl (Returned (Some ''cannot read response body'')))"
  "getPrintables_turn parse v (Res 200 (Inr \<lparr>asErrorResponse = Inl err, asResponse = x\<rparr>)) =
     ([], Inl (Returned (Some (''failed to unmarshal error: '' @ err))))"
  "getPrintables_turn parse v
     (Res 200 (Inr \<lparr>asErrorResponse = Inr \<lparr>Errors = Some (e # es)\<rparr>, asResponse = x\<rparr>)) =
     ([], Inl (Returned (Some (''failed to make graphql request: '' @ Message e))))"
  "errs = None \<or> errs = Some [] \<Longrightarrow> getPrintables_turn parse v
     (Res 200 (Inr \<lparr>asErrorResponse = Inr \<lparr>Errors = errs\<rparr>, asResponse = Inl err\<rparr>)) =
     ([], Inl (Returned (Some (''failed to unmarshal response: '' @ err))))"
  by (auto simp: getPrintables_turn_def graphQLError_String_def)

text \<open>
  C7 (amended).  Let the fetcher have consumed the answers \<open>pre\<close> and be waiting for
  the answer to its latest request.  If that answer is a transport error, a status other
  than 200, a body that cannot be read, a body that does not decode, or a body with a
  non-empty error list, the fetcher returns one error and does nothing else: the records
  sent and the requests made are those made so far, whatever answers would follow.  The
  error carries the message of the transport or decoding error, the status code, or the
  message of the first entry of the error list (the later entries \<open>es\<close> and the rest of
  the body have no influence); for an unreadable body it is a fixed text.
\<close>

theorem fetcher_stops_at_first_error:
  assumes "ending (getPrintables_loop parse v n pre) = Waiting"
    and "StatusCode \<noteq> 200"
    and "errs = None \<or> errs = Some []"
  shows "getPrintables_loop parse v n (pre @ DoError err # rest) =
      (getPrintables_loop parse v n pre)
        \<lparr>ending := Returned (Some (''failed to make request: '' @ err))\<rparr>
    \<and> getPrintables_loop parse v n (pre @ Res StatusCode body # rest) =
      (getPrintables_loop parse v n pre)
        \<lparr>ending := Returned (Some (''github returned '' @ showInt StatusCode))\<rparr>
    \<and> getPrintables_loop parse v n (pre @ Res 200 (Inl err) # rest) =
      (getPrintables_loop parse v n pre)
        \<lparr>ending := Returned (Some ''cannot read response body'')\<rparr>
    \<and> getPrintables_loop parse v n
        (pre @ Res 200 (Inr \<lparr>asErrorResponse = Inl err, asResponse = x\<rparr>) # rest) =
      (getPrintables_loop parse v n pre)
        \<lparr>ending := Returned (Some (''failed to unmarshal error: '' @ err))\<rparr>
    \<and> getPrintables_loop parse v n
        (pre @ Res 200 (Inr \<lparr>asErrorResponse = Inr \<lparr>Errors = Some (e # es)\<rparr>,
                              asResponse = x\<rparr>) # rest) =
      (getPrintables_loop parse v n pre)
        \<lparr>ending := Returned (Some (''failed to make graphql request: '' @ Message e))\<rparr>
    \<and> getPrintables_loop parse v n
        (pre @ Res 200 (Inr \<lparr>asErrorResponse = Inr \<lparr>Errors = errs\<rparr>,
                              asResponse = Inl err\<rparr>) # rest) =
      (getPrintables_loop parse v n pre)
        \<lparr>ending := Returned (Some (''failed to unmarshal response: '' @ err))\<rparr>"
  using assms(2,3)
  by (simp add: loop_stop [OF assms(1)] turn_errors)


lemma loop_fullPage:
  "getPrintables_loop parse0 v n [fullPage] =
     \<lparr>sent = fullPage_sent,
      requests = [(n, v), (n + 1, v\<lparr>var_after := Some ''z''\<rparr>)],
      ending = Waiting\<rparr>"
  unfolding page_def fullPage_def fullPage_sent_def
  by (subst getPrintables_loop_Cons)
     (simp add: turn_page [where errs = None] repoWith_def parsedOrZero_def parse0_def pull0_def
        setAfter_Some del: map_append map_replicate)

lemma showInt_404: "showInt 404 = ''404''"
  by code_simp

theorem fetcher_stops_at_first_error_witness:
  "ending (getPrintables_loop parse0 vars0 1 [fullPage]) = Waiting \<and> (404 :: int) \<noteq> 200
   \<and> getPrintables_loop parse0 vars0 1 ([fullPage] @ Res 404 (Inl ''gone'') # [fullPage]) =
       \<lparr>sent = fullPage_sent,
        requests = [(1, vars0), (2, vars0\<lparr>var_after := Some ''z''\<rparr>)],
        ending = Returned (Some ''github returned 404'')\<rparr>
   \<and> getPrintables_loop parse0 vars0 1
        ([fullPage] @ Res 200 (Inr \<lparr>asErrorResponse = Inr \<lparr>Errors = Some
             [\<lparr>Path = [], Extensions = None, Locations = [], Message = ''rate limited''\<rparr>,
              \<lparr>Path = [], Extensions = None, Locations = [], Message = ''second''\<rparr>]\<rparr>,
             asResponse = Inl ''bad''\<rparr>) # [fullPage]) =
       \<lparr>sent = fullPage_sent,
        requests = [(1, vars0), (2, vars0\<lparr>var_after := Some ''z''\<rparr>)],
        ending = Returned (Some ''failed to make graphql request: rate limited'')\<rparr>"
proof -
  have waiting: "ending (getPrintables_loop parse0 vars0 1 [fullPage]) = Waiting"
    by (simp add: loop_fullPage del: getPrintables_loop.simps)
  have status: "(404 :: int) \<noteq> 200" by simp
  have errs: "(None :: graphQLError list option) = None \<or> None = Some []" by simp
  from fetcher_stops_at_first_error [OF waiting status errs, of "''x''" "[fullPage]"
      "Inl ''gone''" "Inl ''bad''"
      "\<lparr>Path = [], Extensions = None, Locations = [], Message = ''rate limited''\<rparr>"
      "[\<lparr>Path = [], Extensions = None, Locations = [], Message = ''second''\<rparr>]"]
  show ?thesis
    by (simp add: loop_fullPage showInt_404 del: getPrintables_loop.simps)
qed

text \<open>
  C7 as stated fails for an unreadable body: the message of the read error is not part
  of the error the fetcher returns.
\<close>

theorem unreadable_body_counterexample:
  "getPrintables parse0 ''gdbu'' [Res 200 (Inl ''unexpected EOF'')] =
     \<lparr>sent = [],
      requests = [(1, \<lparr>var_orgName = ''gdbu'', var_after = None, var_pageSize = 100\<rparr>)],
      ending = Returned (Some ''cannot read response body'')\<rparr>
   \<and> \<not> sublist ''unexpected EOF'' ''cannot read response body''"
  by (simp add: getPrintables_def getPrintables_turn_def pageSize_def sublist_Cons_right)


lemma loop_page:
  assumes "errs = None \<or> errs = Some []"
    and "Repositories org = Some repos"
    and "sendRepos parse org (Nodes repos) = (ps, True)"
    and "Edges repos = map Some cs"
  shows "getPrintables_loop parse v n
        (Res 200 (Inr \<lparr>asErrorResponse = Inr \<lparr>Errors = errs\<rparr>,
                       asResponse = Inr \<lparr>Data = Some \<lparr>data.Organization = Some org\<rparr>\<rparr>\<rparr>) # rest) =
     (if length cs \<noteq> 100 then \<lparr>sent = ps, requests = [(n, v)], ending = Returned None\<rparr>
      else
        \<lparr>sent = ps @ sent (getPrintables_loop parse
                   (v\<lparr>var_after := Some (Cursor (last cs))\<rparr>) (n + 1) rest),
         requests = (n, v) # requests (getPrintables_loop parse
                   (v\<lparr>var_after := Some (Cursor (last cs))\<rparr>) (n + 1) rest),
         ending = ending (getPrintables_loop parse
                   (v\<lparr>var_after := Some (Cursor (last cs))\<rparr>) (n + 1) rest)\<rparr>)"
proof -
  let ?r = "Res 200 (Inr \<lparr>asErrorResponse = Inr \<lparr>Errors = errs\<rparr>,
                       asResponse = Inr \<lparr>Data = Some \<lparr>data.Organization = Some org\<rparr>\<rparr>\<rparr>)"
  have turn: "getPrintables_turn parse v ?r =
     (ps, if length cs \<noteq> 100 then Inl (Returned None)
          else Inr (if cs = [] then v else v\<lparr>var_after := Some (Cursor (last cs))\<rparr>))"
    using turn_page [OF assms(1-3), of v] by (simp add: assms(4) setAfter_Some)
  show ?thesis
    by (subst getPrintables_loop_Cons) (auto simp: turn)
qed


lemma fullPage_eq:
  "fullPage =
     Res 200 (Inr \<lparr>asErrorResponse = Inr \<lparr>Errors = None\<rparr>,
                    asResponse = Inr \<lparr>Data = Some \<lparr>data.Organization = Some
                      \<lparr>Login = ''gdbu'',
                       Repositories = Some
                         \<lparr>TotalCount = 1,
                          Nodes = [Some (repoWith ''api'' [Some (pull0 7 ''2020-01-01T00:00:00Z'')])],
                          Edges = map Some (replicate 99 \<lparr>Cursor = ''c''\<rparr> @ [\<lparr>Cursor = ''z''\<rparr>])\<rparr>\<rparr>\<rparr>\<rparr>\<rparr>)"
  by (simp add: fullPage_def page_def)

lemma fullPage_sendRepos:
  "sendRepos parse0
     \<lparr>Login = ''gdbu'',
      Repositories = Some
        \<lparr>TotalCount = 1,
         Nodes = [Some (repoWith ''api'' [Some (pull0 7 ''2020-01-01T00:00:00Z'')])],
         Edges = map Some (replicate 99 \<lparr>Cursor = ''c''\<rparr> @ [\<lparr>Cursor = ''z''\<rparr>])\<rparr>\<rparr>
     [Some (repoWith ''api'' [Some (pull0 7 ''2020-01-01T00:00:00Z'')])] = (fullPage_sent, True)"
  by (simp add: fullPage_sent_def repoWith_def parsedOrZero_def parse0_def pull0_def
      del: map_append map_replicate)



lemma fold_after_last:
  fixes v :: vars and cs :: "cursor list"
  shows "cs \<noteq> [] \<Longrightarrow>
   fold (\<lambda>c v. v\<lparr>var_after := Some (Cursor c)\<rparr>) cs v = v\<lparr>var_after := Some (Cursor (last cs))\<rparr>"
  using setAfter_Some [of v cs] setAfter_fold [of v cs] by simp

text \<open>
  C8.  The loop over the edges overwrites the \<^verbatim>\<open>after\<close> variable with the cursor of
  each edge in turn, so after a page whose edges \<open>cs\<close> are not empty it holds the cursor
  of the last edge.  A further request is made after a page of exactly 100 edges; its
  variables are those of the request before, with \<^verbatim>\<open>after\<close> set to the cursor of the
  last edge of the page.
\<close>

theorem next_request_carries_last_cursor:
  assumes "errs = None \<or> errs = Some []"
    and "Repositories org = Some repos"
    and "sendRepos parse org (Nodes repos) = (ps, True)"
    and "Edges repos = map Some cs"
    and "cs \<noteq> []"
  shows "setAfter v (Edges repos) = Some (fold (\<lambda>c v. v\<lparr>var_after := Some (Cursor c)\<rparr>) cs v)
    \<and> fold (\<lambda>c v. v\<lparr>var_after := Some (Cursor c)\<rparr>) cs v =
        v\<lparr>var_after := Some (Cursor (last cs))\<rparr>
    \<and> (length cs = 100 \<longrightarrow>
         requests (getPrintables_loop parse v n
           (Res 200 (Inr \<lparr>asErrorResponse = Inr \<lparr>Errors = errs\<rparr>,
                          asResponse = Inr \<lparr>Data = Some \<lparr>data.Organization = Some org\<rparr>\<rparr>\<rparr>)
            # rest)) ! 1 = (n + 1, v\<lparr>var_after := Some (Cursor (last cs))\<rparr>))
    \<and> (length cs \<noteq> 100 \<longrightarrow>
         requests (getPrintables_loop parse v n
           (Res 200 (Inr \<lparr>asErrorResponse = Inr \<lparr>Errors = errs\<rparr>,
                          asResponse = Inr \<lparr>Data = Some \<lparr>data.Organization = Some org\<rparr>\<rparr>\<rparr>)
            # rest)) = [(n, v)])"
proof -
  note here = loop_page [OF assms(1-4), of v n rest]
  have "requests (getPrintables_loop parse (v\<lparr>var_after := Some (Cursor (last cs))\<rparr>) (n + 1) rest) ! 0
      = (n + 1, v\<lparr>var_after := Some (Cursor (last cs))\<rparr>)"
    using hd_requests [of parse "v\<lparr>var_after := Some (Cursor (last cs))\<rparr>" "n + 1" rest]
      requests_nonempty [of parse "v\<lparr>var_after := Some (Cursor (last cs))\<rparr>" "n + 1" rest]
    by (simp add: hd_conv_nth)
  then show ?thesis
    by (simp add: here assms(4,5) setAfter_fold fold_after_last del: getPrintables_loop.simps)
qed

theorem next_request_carries_last_cursor_witness:
  "replicate 99 \<lparr>Cursor = ''c''\<rparr> @ [\<lparr>Cursor = ''z''\<rparr>] \<noteq> []
   \<and> requests (getPrintables_loop parse0 vars0 1 [fullPage, fullPage]) ! 1 =
       (2, vars0\<lparr>var_after := Some ''z''\<rparr>)"
proof -
  let ?cs = "replicate 99 \<lparr>Cursor = ''c''\<rparr> @ [\<lparr>Cursor = ''z''\<rparr>]"
  let ?repos = "\<lparr>TotalCount = 1,
      Nodes = [Some (repoWith ''api'' [Some (pull0 7 ''2020-01-01T00:00:00Z'')])],
      Edges = map Some ?cs\<rparr>"
  let ?org = "\<lparr>Login = ''gdbu'', Repositories = Some ?repos\<rparr>"
  have errs: "(None :: graphQLError list option) = None \<or> None = Some []" by simp
  have repos: "Repositories ?org = Some ?repos" by simp
  have nodes: "sendRepos parse0 ?org (Nodes ?repos) = (fullPage_sent, True)"
    using fullPage_sendRepos by simp
  have edges: "Edges ?repos = map Some ?cs" by simp
  have ne: "?cs \<noteq> []" by simp
  from next_request_carries_last_cursor [OF errs repos nodes edges ne, of vars0 1 "[fullPage]"]
  show ?thesis
    by (simp add: fullPage_eq [symmetric] del: getPrintables_loop.simps map_append map_replicate)
qed

section \<open>The two variants\<close>

lemma sendPullRows_eq:
  "sendPullRows parse now org repo prs =
     (map (rowOf now) (fst (sendPulls parse org repo prs)), snd (sendPulls parse org repo prs))"
  by (induction parse org repo prs rule: sendPulls.induct)
     (simp_all add: rowOf_def Let_def split: prod.splits)

lemma sendRepoRows_eq:
  "sendRepoRows parse now org rs =
     (map (rowOf now) (fst (sendRepos parse org rs)), snd (sendRepos parse org rs))"
  by (induction parse org rs rule: sendRepos.induct)
     (simp_all add: sendPullRows_eq split: prod.splits bool.splits)

lemma getRows_turn_eq:
  "getRows_turn parse now v r =
     (map (rowOf now) (fst (getPrintables_turn parse v r)), snd (getPrintables_turn parse v r))"
  by (simp add: getRows_turn_def getPrintables_turn_def sendRepoRows_eq
      split: http_result.splits sum.splits option.splits list.splits prod.splits bool.splits)

lemma getRows_loop_eq:
  "getRows_loop parse now v n rs =
     \<lparr>sent = map (rowOf now) (sent (getPrintables_loop parse v n rs)),
      requests = requests (getPrintables_loop parse v n rs),
      ending = ending (getPrintables_loop parse v n rs)\<rparr>"
  by (induction rs arbitrary: v n)
     (simp_all add: getRows_turn_eq Let_def split: prod.splits sum.splits)

lemma getRows_eq:
  "getRows parse now org answers =
     \<lparr>sent = map (rowOf now) (sent (getPrintables parse org answers)),
      requests = requests (getPrintables parse org answers),
      ending = ending (getPrintables parse org answers)\<rparr>"
  by (simp add: getRows_def getPrintables_def getRows_loop_eq)

lemma insertLeft_map:
  assumes "\<And>x. k' (g x) = k x"
  shows "insertLeft (\<lambda>a b. k' a < k' b) (g x) (map g ys) =
     map g (insertLeft (\<lambda>a b. k a < k b) x ys)"
  by (induction ys) (simp_all add: assms)

lemma foldl_insertLeft_map:
  assumes "\<And>x. k' (g x) = k x"
  shows "foldl (\<lambda>prefix x. insertLeft (\<lambda>a b. k' a < k' b) x prefix) (map g acc) (map g xs) =
     map g (foldl (\<lambda>prefix x. insertLeft (\<lambda>a b. k a < k b) x prefix) acc xs)"
  by (induction xs arbitrary: acc) (simp_all add: insertLeft_map [where k' = k' and g = g and k = k, OF assms])

lemma sort_Slice_map:
  assumes "\<And>x. k' (g x) = k x"
  shows "sort_Slice (\<lambda>a b. k' a < k' b) (map g xs) = map g (sort_Slice (\<lambda>a b. k a < k b) xs)"
  using foldl_insertLeft_map [where k' = k' and g = g and k = k, OF assms, of "[]" xs] by (simp add: sort_Slice_def rev_map)

lemma printRows_eq:
  "printRows (map (rowOf now) ps) bs =
     (map asFormat (fst (printPrintables now ps bs)), snd (printPrintables now ps bs))"
  by (induction ps arbitrary: bs)
     (simp_all add: rowOf_def Row_String_def Let_def split: prod.splits)

lemma asFormat_printSummary: "map asFormat (printSummary len bs) = printSummary len bs"
  by (simp add: printSummary_eq)

lemma FindOrgPulls_report_eq:
  "FindOrgPulls_report (map (rowOf now) ps) = map asFormat (main_report now ps)"
proof -
  have "sort_Slice (\<lambda>a b. Unix (Row.CreatedDate a) < Unix (Row.CreatedDate b)) (map (rowOf now) ps)
      = map (rowOf now) (sort_Slice (\<lambda>a b. Unix (CreatedDate a) < Unix (CreatedDate b)) ps)"
    by (rule sort_Slice_map [where k = "\<lambda>p. Unix (CreatedDate p)"]) (simp add: rowOf_def)
  then show ?thesis
    by (simp add: FindOrgPulls_report_def main_report_split printRows_eq asFormat_printSummary)
qed

text \<open>
  C9 (amended).  The fetcher of the second variant makes the same requests, ends the
  same way and sends the same records as the fetcher of the first, each record with the
  age computed from the clock reading \<open>now\<close> of the fetcher.  When these are the ages
  of all retained rows, the second collector prints what the first collector prints
  when its own clock reading, taken after sorting, is the same \<open>now\<close>: the same labels,
  the same lines of pull requests (passed to \<^verbatim>\<open>Printf\<close> as the format) and the same
  summary.  Both collectors sort by the creation time in whole seconds.
\<close>

theorem variants_agree_on_equal_clock_readings:
  "getRows parse now org answers =
     \<lparr>sent = map (rowOf now) (sent (getPrintables parse org answers)),
      requests = requests (getPrintables parse org answers),
      ending = ending (getPrintables parse org answers)\<rparr>
   \<and> FindOrgPulls_report (map (rowOf now) ps) = map asFormat (main_report now ps)"
  by (simp add: getRows_eq FindOrgPulls_report_eq)

text \<open>
  C9 as stated fails: the first variant computes the age when it prints, from a clock
  read by the collector after sorting, and this reading is later than the one a fetcher
  of the second variant takes.  A pull request created exactly seven days before the
  fetcher's reading is in no bucket for the second variant; one second later the first
  variant prints it under \<^verbatim>\<open>Older than one week\<close>.
\<close>

theorem clock_reading_counterexample:
  "FindOrgPulls_report
     (sent (getRows parse0 (1577836800 * Second + 7 * Day) ''gdbu'' [fullPage])) =
     [Found 1,
      Printf_format (PullText (7 * Day) ''gdbu'' ''api'' 7 ''fix'' ''dev''),
      SummaryOf 1,
      BucketLine ''one year'' 0, BucketLine ''six months'' 0, BucketLine ''three months'' 0,
      BucketLine ''one month'' 0, BucketLine ''one week'' 0,
      NewerThan ''one week'' 1]
   \<and> main_report (1577836800 * Second + 7 * Day + Second)
     (sent (getPrintables parse0 ''gdbu'' [fullPage])) =
     [Found 1,
      Println ''Older than one week'',
      Printf_args (PullText (7 * Day + Second) ''gdbu'' ''api'' 7 ''fix'' ''dev''),
      SummaryOf 1,
      BucketLine ''one year'' 0, BucketLine ''six months'' 0, BucketLine ''three months'' 0,
      BucketLine ''one month'' 0, BucketLine ''one week'' 1,
      NewerThan ''one week'' 0]"
proof -
  have sent: "sent (getPrintables parse0 ''gdbu'' [fullPage]) = fullPage_sent"
    by (simp add: getPrintables_def loop_fullPage del: getPrintables_loop.simps)
  have one: "main_report (1577836800 * Second + 7 * Day + Second) fullPage_sent =
     [Found 1,
      Println ''Older than one week'',
      Printf_args (PullText (7 * Day + Second) ''gdbu'' ''api'' 7 ''fix'' ''dev''),
      SummaryOf 1,
      BucketLine ''one year'' 0, BucketLine ''six months'' 0, BucketLine ''three months'' 0,
      BucketLine ''one month'' 0, BucketLine ''one week'' 1,
      NewerThan ''one week'' 0]"
    by (simp add: main_report_def sort_Slice_def fullPage_sent_def repoWith_def pull0_def
      Unix_def Second_def Sub_def maxDuration_def minDuration_def buckets_def Day_eq
      printSummary_def Let_def del: map_append map_replicate)
  have two: "main_report (1577836800 * Second + 7 * Day) fullPage_sent =
     [Found 1,
      Printf_args (PullText (7 * Day) ''gdbu'' ''api'' 7 ''fix'' ''dev''),
      SummaryOf 1,
      BucketLine ''one year'' 0, BucketLine ''six months'' 0, BucketLine ''three months'' 0,
      BucketLine ''one month'' 0, BucketLine ''one week'' 0,
      NewerThan ''one week'' 1]"
    by (simp add: main_report_def sort_Slice_def fullPage_sent_def repoWith_def pull0_def
      Unix_def Second_def Sub_def maxDuration_def minDuration_def buckets_def Day_eq
      printSummary_def Let_def del: map_append map_replicate)
  show ?thesis
    using one two by (simp add: getRows_eq sent FindOrgPulls_report_eq)
qed

lemma sorted_positions:
  fixes ks :: "int list"
  assumes "sorted ks" and "i < length ks" and "j < length ks" and "ks ! i < ks ! j"
  shows "i < j"
proof (rule ccontr)
  assume "\<not> i < j"
  then have "j \<le> i" by simp
  with assms(1,2) have "ks ! j \<le> ks ! i" by (simp add: sorted_nth_mono)
  with assms(4) show False by simp
qed

lemma Sub_zeroTime: "365 * Day < now - zeroTime \<Longrightarrow> 365 * Day < Sub now zeroTime"
  by (simp add: Sub_def maxDuration_def minDuration_def Day_eq)

lemma buckets_first:
  assumes "map olderThan bs = map olderThan buckets" and "365 * Day < age"
  shows "firstExceeded age (map olderThan bs) 0"
  using assms by (simp add: firstExceeded_def buckets_def)

text \<open>
  C10 (amended).  A pull request whose \<^verbatim>\<open>createdAt\<close> does not parse is sent like any
  other, with the zero time as its creation date, and the loop goes on with the pull
  requests after it (in both variants).  After sorting, such a record stands before
  every record whose creation time, in whole seconds, is later than the zero time.
  When the clock reading is more than 365 days after the zero time (as every real one
  is), its age exceeds 365 days (the subtraction saturates), and the call of
  \<^verbatim>\<open>getBucketLabel\<close> counts it in the first bucket, one year, whatever the counters are.
\<close>

theorem unparsed_date_is_zero_time:
  assumes "parse (CreatedAt pr) = Inl err"
    and "365 * Day < now - zeroTime"
    and "map olderThan bs = map olderThan buckets"
    and "map label bs = map label buckets"
  shows "sendPulls parse org repo (Some pr # prs) =
      (\<lparr>Organization = org, Repository = repo, PullRequest = pr, CreatedDate = zeroTime\<rparr>
         # fst (sendPulls parse org repo prs),
       snd (sendPulls parse org repo prs))
    \<and> sendPullRows parse now org repo (Some pr # prs) =
      (\<lparr>Row.Organization = org, Row.Repository = repo, Row.PullRequest = pr,
        Row.CreatedDate = zeroTime, Age = Sub now zeroTime\<rparr>
         # fst (sendPullRows parse now org repo prs),
       snd (sendPullRows parse now org repo prs))
    \<and> (\<forall>i j. i < length ps \<and> j < length ps
         \<and> CreatedDate (sort_Slice (\<lambda>a b. Unix (CreatedDate a) < Unix (CreatedDate b)) ps ! i)
             = zeroTime
         \<and> Unix zeroTime
             < Unix (CreatedDate
                 (sort_Slice (\<lambda>a b. Unix (CreatedDate a) < Unix (CreatedDate b)) ps ! j))
         \<longrightarrow> i < j)
    \<and> 365 * Day < Sub now zeroTime
    \<and> getBucketLabel (Sub now zeroTime) bs =
        (if found (bs ! 0) then '''' else ''Older than one year'',
         bs[0 := (bs ! 0)\<lparr>count := count (bs ! 0) + 1, found := True\<rparr>])"
proof -
  let ?ss = "sort_Slice (\<lambda>a b. Unix (CreatedDate a) < Unix (CreatedDate b)) ps"
  have zero: "parsedOrZero parse (CreatedAt pr) = zeroTime"
    by (simp add: parsedOrZero_def assms(1))
  have a: "sendPulls parse org repo (Some pr # prs) =
      (\<lparr>Organization = org, Repository = repo, PullRequest = pr, CreatedDate = zeroTime\<rparr>
         # fst (sendPulls parse org repo prs),
       snd (sendPulls parse org repo prs))"
    by (simp add: zero split: prod.splits)
  have b: "sendPullRows parse now org repo (Some pr # prs) =
      (\<lparr>Row.Organization = org, Row.Repository = repo, Row.PullRequest = pr,
        Row.CreatedDate = zeroTime, Age = Sub now zeroTime\<rparr>
         # fst (sendPullRows parse now org repo prs),
       snd (sendPullRows parse now org repo prs))"
    by (simp add: zero split: prod.splits)
  have c: "i < j" if "i < length ps" "j < length ps" "CreatedDate (?ss ! i) = zeroTime"
      "Unix zeroTime < Unix (CreatedDate (?ss ! j))" for i j
    using sorted_positions [OF sort_Slice_sorted [of "\<lambda>p. Unix (CreatedDate p)" ps], of i j] that
    by (simp add: sort_Slice_length)
  have d: "365 * Day < Sub now zeroTime"
    using assms(2) by (rule Sub_zeroTime)
  have len: "0 < length bs"
    using assms(3) [THEN arg_cong, of length] by (simp add: buckets_def)
  have "label (bs ! 0) = map label bs ! 0"
    using len by simp
  then have lab: "label (bs ! 0) = ''one year''"
    by (simp add: assms(4)) (simp add: buckets_def)
  have e: "getBucketLabel (Sub now zeroTime) bs =
        (if found (bs ! 0) then '''' else ''Older than one year'',
         bs[0 := (bs ! 0)\<lparr>count := count (bs ! 0) + 1, found := True\<rparr>])"
    using getBucketLabel_first [OF buckets_first [OF assms(3) d]] by (simp add: lab)
  from a b c d e show ?thesis by blast
qed

theorem unparsed_date_is_zero_time_witness:
  "parse0 (CreatedAt (pull0 1 ''yesterday'')) = Inl ''parsing time: cannot parse yesterday''
   \<and> 365 * Day < 1600000000 * Second - zeroTime
   \<and> sendPulls parse0 org0 repo0 [Some (pull0 1 ''yesterday'')] =
       ([printable0 1 ''yesterday'' zeroTime], True)
   \<and> sort_Slice (\<lambda>a b. Unix (CreatedDate a) < Unix (CreatedDate b))
         [printable0 2 ''2020-01-01T00:00:00Z'' (1577836800 * Second),
          printable0 1 ''yesterday'' zeroTime] =
       [printable0 1 ''yesterday'' zeroTime,
        printable0 2 ''2020-01-01T00:00:00Z'' (1577836800 * Second)]
   \<and> getBucketLabel (Sub (1600000000 * Second) zeroTime) buckets =
       (''Older than one year'',
        buckets[0 := \<lparr>olderThan = 365 * Day, label = ''one year'', found = True, count = 1\<rparr>])"
proof -
  have p: "parse0 (CreatedAt (pull0 1 ''yesterday'')) = Inl ''parsing time: cannot parse yesterday''"
    by (simp add: parse0_def pull0_def)
  have n: "365 * Day < 1600000000 * Second - zeroTime"
    by (simp add: Day_eq Second_def zeroTime_def)
  have s: "sort_Slice (\<lambda>a b. Unix (CreatedDate a) < Unix (CreatedDate b))
         [printable0 2 ''2020-01-01T00:00:00Z'' (1577836800 * Second),
          printable0 1 ''yesterday'' zeroTime] =
       [printable0 1 ''yesterday'' zeroTime,
        printable0 2 ''2020-01-01T00:00:00Z'' (1577836800 * Second)]"
    by (simp add: sort_Slice_def printable0_def Unix_def Second_def zeroTime_def)
  from unparsed_date_is_zero_time [where bs = buckets and parse = parse0
      and pr = "pull0 1 ''yesterday''" and now = "1600000000 * Second" and org = org0
      and repo = repo0 and prs = "[]"
      and ps = "[printable0 2 ''2020-01-01T00:00:00Z'' (1577836800 * Second),
                 printable0 1 ''yesterday'' zeroTime]", OF p n refl refl] p n s
  show ?thesis
    by (simp add: buckets_def printable0_def)
qed

text \<open>
  C10 as stated fails for a valid timestamp before the zero time: the year 0000 is
  accepted by the RFC 3339 layout, and a record created then is sorted before the record
  whose date did not parse.
\<close>

theorem year_zero_counterexample:
  "parse0 ''yesterday'' = Inl ''parsing time: cannot parse yesterday''
   \<and> parse0 ''0000-06-01T00:00:00Z'' = Inr (- 62154086400 * Second)
   \<and> map (\<lambda>p. (Number (PullRequest p), CreatedDate p))
        (sent (getPrintables parse0 ''gdbu''
          [page [Some (repoWith ''api''
             [Some (pull0 1 ''yesterday''), Some (pull0 2 ''0000-06-01T00:00:00Z'')])] []])) =
       [(1, zeroTime), (2, - 62154086400 * Second)]
   \<and> map (\<lambda>p. (Number (PullRequest p), CreatedDate p))
        (sort_Slice (\<lambda>a b. Unix (CreatedDate a) < Unix (CreatedDate b))
          (sent (getPrintables parse0 ''gdbu''
            [page [Some (repoWith ''api''
               [Some (pull0 1 ''yesterday''), Some (pull0 2 ''0000-06-01T00:00:00Z'')])] []]))) =
       [(2, - 62154086400 * Second), (1, zeroTime)]"
  unfolding getPrintables_def page_def
  by (subst getPrintables_loop_Cons, subst getPrintables_loop_Cons)
     (simp add: turn_page [where errs = None] repoWith_def parsedOrZero_def parse0_def pull0_def
        sort_Slice_def Unix_def Second_def zeroTime_def)

section \<open>Labels in the print loop\<close>






















end
